theory Spec2Isabelle
  imports Complex_Main "HOL-Library.Word" "HOL-Library.Signed_Division" "HOL-Library.AList"
begin

section \<open>Data model of the words lambda\<close>

text \<open>
  The development follows the words lambda with the word cache, the user cache and the
  read-modify-write statistics update (the 433-line \<^verbatim>\<open>package main\<close> file with
  \<^verbatim>\<open>cachedWords\<close>). Its structs become records. Two structs have a field
  \<^verbatim>\<open>Word\<close>; the fields of \<^verbatim>\<open>WordResults\<close> and \<^verbatim>\<open>WordStatistics\<close> carry
  the suffixes \<open>_r\<close> and \<open>_s\<close>.

  Go's \<^verbatim>\<open>int\<close> is 64 bits wide on the lambda's platform: the counters are
  \<open>64 word\<close>, read as two's complement by \<open>sint\<close>, and \<^verbatim>\<open>++\<close> wraps around.
  The \<^verbatim>\<open>float32\<close> quotient is not computed here: the type \<open>'f\<close> of ratios and the
  function \<open>ratio\<close>, which stands for \<^verbatim>\<open>float32(s) / float32(a)\<close> as it reaches the
  store (printed with \<^verbatim>\<open>%f\<close>), are parameters.
\<close>

record Word =
  Word :: string
  Correct :: string
  Incorrect :: "string list"

record WordResults =
  Word_r :: string
  IsCorrect :: bool

record 'f WordStatistics =
  UserId :: string
  Word_s :: string
  Attempts :: "64 word"
  Success :: "64 word"
  SuccessRatio :: 'f

text \<open>
  Go \<^verbatim>\<open>error\<close> values and run-time panics. A panic is not an \<^verbatim>\<open>error\<close> a caller
  can test for: it ends the invocation.
\<close>

datatype error =
    Unauthorized string
  | NoUserFound
  | StoreFailure
  | UnmarshalFailure
  | Panic string

section \<open>The store\<close>

text \<open>
  The store is DynamoDB, reached through \<^verbatim>\<open>db.GetItem\<close>, \<^verbatim>\<open>db.UpdateItem\<close> and
  \<^verbatim>\<open>db.Query\<close>. It is not part of the repository; the model keeps what the lambda
  relies on.

  The table \<^verbatim>\<open>WordStatistics\<close> maps the primary key \<open>(userId, word)\<close> to the other
  attributes of the item. \<open>Numbers a s q\<close> is an item whose \<^verbatim>\<open>attempts\<close>,
  \<^verbatim>\<open>success\<close> and \<^verbatim>\<open>successRatio\<close> unmarshal into the struct; \<open>Garbled q\<close> is an
  item one of whose attributes does not (\<open>q\<close> is its \<^verbatim>\<open>successRatio\<close> when that
  one is a number, so that the item still stands in the index).

  Every request may fail: \<open>failing env n\<close> tells whether the \<open>n\<close>-th request issued in
  this process does, and \<open>requests\<close> counts the requests issued so far. A request that
  fails changes no item.
\<close>

type_synonym key = "string \<times> string"

datatype 'f attrs = Numbers "64 word" "64 word" 'f | Garbled "'f option"

record 'f state =
  wordStatistics :: "(key \<times> 'f attrs) list"
  usersIndex :: "(string \<times> string) list"
  requests :: nat
  userCache :: "string \<rightharpoonup> string"
  rand :: "nat \<Rightarrow> nat"

text \<open>
  What one invocation finds around it. \<open>cachedWords\<close> is the word cache as an
  association list, in the order in which this invocation's \<^verbatim>\<open>range\<close> visits the map
  (Go leaves the order open, so it is an input). \<open>source\<close> is the generator of
  \<^verbatim>\<open>math/rand\<close>: the stream of raw outputs that follows a seed. \<open>now\<close> is the
  reading of \<^verbatim>\<open>time.Now().UnixNano()\<close>.
\<close>

record 'f env =
  cachedWords :: "(string \<times> Word) list"
  failing :: "nat \<Rightarrow> bool"
  source :: "int \<Rightarrow> nat \<Rightarrow> nat"
  now :: int
  ratio :: "int \<Rightarrow> int \<Rightarrow> 'f"

definition issued :: "'f state \<Rightarrow> 'f state" where
  "issued st = st\<lparr>requests := requests st + 1\<rparr>"

definition GetItem :: "'f env \<Rightarrow> 'f state \<Rightarrow> key \<Rightarrow> (error + 'f attrs option) \<times> 'f state" where
  "GetItem env st k =
     (if failing env (requests st) then (Inl StoreFailure, issued st)
      else (Inr (map_of (wordStatistics st) k), issued st))"

text \<open>
  \<^verbatim>\<open>UpdateItem\<close> with the expression
  \<^verbatim>\<open>SET attempts = :attempts, success = :success, successRatio = :successRatio\<close>:
  the three attributes of the item under the key are overwritten, and the item is
  created when there is none.
\<close>

definition UpdateItem :: "'f env \<Rightarrow> 'f state \<Rightarrow> key \<Rightarrow> 64 word \<Rightarrow> 64 word \<Rightarrow> 'f \<Rightarrow> error option \<times> 'f state" where
  "UpdateItem env st k a s q =
     (if failing env (requests st) then (Some StoreFailure, issued st)
      else (None, issued (st\<lparr>wordStatistics := AList.update k (Numbers a s q) (wordStatistics st)\<rparr>)))"

fun index_ratio :: "'f attrs \<Rightarrow> 'f option" where
  "index_ratio (Numbers a s q) = Some q"
| "index_ratio (Garbled q) = q"

text \<open>
  Modelled from the spec: the store's index query (section 6,
  \<^verbatim>\<open>queryByIndex(table, indexKey, equalityValue, orderByField, ascending, limit)\<close>),
  which the repository calls and does not define. The index
  \<^verbatim>\<open>userId-successRatio-index\<close> holds the items of one user by ascending
  \<^verbatim>\<open>successRatio\<close>; the answer is capped at \<open>limit\<close> items.
\<close>

definition index_rows :: "string \<Rightarrow> (key \<times> ('f::linorder) attrs) list \<Rightarrow> (key \<times> 'f attrs) list" where
  "index_rows userID tbl =
     map snd (sort_key fst
       (List.map_filter
          (\<lambda>(k, a). if fst k = userID then map_option (\<lambda>q. (q, (k, a))) (index_ratio a) else None)
          tbl))"

definition Query_statistics ::
  "'f env \<Rightarrow> ('f::linorder) state \<Rightarrow> string \<Rightarrow> int \<Rightarrow> (error + (key \<times> 'f attrs) list) \<times> 'f state" where
  "Query_statistics env st userID limit =
     (if failing env (requests st) then (Inl StoreFailure, issued st)
      else (Inr (take (nat limit) (index_rows userID (wordStatistics st))), issued st))"

text \<open>
  The index \<^verbatim>\<open>email-userId-index\<close> of the table \<^verbatim>\<open>Users\<close>, as the list of its
  entries \<open>(email, userId)\<close> in index order; the query returns the \<^verbatim>\<open>userId\<close>
  attributes of the entries with the email.
\<close>

definition Query_users :: "'f env \<Rightarrow> 'f state \<Rightarrow> string \<Rightarrow> (error + string list) \<times> 'f state" where
  "Query_users env st email =
     (if failing env (requests st) then (Inl StoreFailure, issued st)
      else (Inr (map snd (filter (\<lambda>(e, u). e = email) (usersIndex st))), issued st))"

fun UnmarshalMap :: "key \<times> 'f attrs \<Rightarrow> error + 'f WordStatistics" where
  "UnmarshalMap ((u, w), Numbers a s q) =
     Inr \<lparr>UserId = u, Word_s = w, Attempts = a, Success = s, SuccessRatio = q\<rparr>"
| "UnmarshalMap ((u, w), Garbled q) = Inl UnmarshalFailure"

section \<open>The random source\<close>

text \<open>
  The state of the process-wide source of \<^verbatim>\<open>math/rand\<close> is the stream of raw outputs
  still to come. \<^verbatim>\<open>rand.Intn(n)\<close> consumes one and returns a value of \<open>[0, n)\<close>; every
  value of the range is the answer on some stream. \<^verbatim>\<open>rand.Seed(s)\<close> replaces the
  state by the stream of the seed. \<^verbatim>\<open>Intn\<close> panics on \<open>n \<le> 0\<close>; its only call
  passes \<open>i + 1\<close> with \<open>i\<close> a count.
\<close>

definition Intn :: "nat \<Rightarrow> (nat \<Rightarrow> nat) \<Rightarrow> nat \<times> (nat \<Rightarrow> nat)" where
  "Intn n g = (g 0 mod n, \<lambda>k. g (Suc k))"

section \<open>Retrieval\<close>

text \<open>
  The two loops of \<^verbatim>\<open>getPoorPerformanceWords\<close>: unmarshal every item and keep its
  word, then look every word up in the cache and drop those it does not hold.
\<close>

fun unmarshalWords :: "(key \<times> 'f attrs) list \<Rightarrow> string list \<Rightarrow> error + string list" where
  "unmarshalWords [] poorPerformanceWords = Inr poorPerformanceWords"
| "unmarshalWords (item # items) poorPerformanceWords =
     (case UnmarshalMap item of
        Inl err \<Rightarrow> Inl err
      | Inr wp \<Rightarrow> unmarshalWords items (poorPerformanceWords @ [Word_s wp]))"

fun lookupWords :: "(string \<times> Word) list \<Rightarrow> string list \<Rightarrow> Word list \<Rightarrow> Word list" where
  "lookupWords cw [] allPoorPerformanceWords = allPoorPerformanceWords"
| "lookupWords cw (word # rest) allPoorPerformanceWords =
     (case map_of cw word of
        Some completeWord \<Rightarrow> lookupWords cw rest (allPoorPerformanceWords @ [completeWord])
      | None \<Rightarrow> lookupWords cw rest allPoorPerformanceWords)"

definition getPoorPerformanceWords ::
  "'f env \<Rightarrow> ('f::linorder) state \<Rightarrow> string \<Rightarrow> int \<Rightarrow> (error + Word list) \<times> 'f state" where
  "getPoorPerformanceWords env st userID limit =
     (case Query_statistics env st userID (limit sdiv 2) of
        (Inl err, st') \<Rightarrow> (Inl err, st')
      | (Inr items, st') \<Rightarrow>
          (case unmarshalWords items [] of
             Inl err \<Rightarrow> (Inl err, st')
           | Inr poorPerformanceWords \<Rightarrow>
               (Inr (lookupWords (cachedWords env) poorPerformanceWords []), st')))"

text \<open>
  The loop of \<^verbatim>\<open>getRandomWords\<close> over the words still to visit, with the counter
  \<open>i\<close>, the reservoir and the random source. \<^verbatim>\<open>randomWords[r] = word\<close> panics when
  \<open>r\<close> is not an index of the slice.
\<close>

fun reservoir ::
  "int \<Rightarrow> Word list \<Rightarrow> nat \<Rightarrow> Word list \<Rightarrow> (nat \<Rightarrow> nat) \<Rightarrow> (error + Word list) \<times> (nat \<Rightarrow> nat)" where
  "reservoir limit [] i randomWords g = (Inr randomWords, g)"
| "reservoir limit (word # rest) i randomWords g =
     (if int i < limit then reservoir limit rest (i + 1) (randomWords @ [word]) g
      else (case Intn (i + 1) g of (r, g') \<Rightarrow>
        if int r < limit then
          (if r < length randomWords
           then reservoir limit rest (i + 1) (randomWords[r := word]) g'
           else (Inl (Panic ''index out of range''), g'))
        else reservoir limit rest (i + 1) randomWords g'))"

definition getRandomWords :: "'f env \<Rightarrow> 'f state \<Rightarrow> int \<Rightarrow> (error + Word list) \<times> 'f state" where
  "getRandomWords env st limit =
     (let seeded = st\<lparr>rand := source env (now env)\<rparr>
      in case reservoir limit (map snd (cachedWords env)) 0 [] (rand seeded) of
           (res, g) \<Rightarrow> (res, seeded\<lparr>rand := g\<rparr>))"

text \<open>
  The loop that \<^verbatim>\<open>getWords\<close> runs twice, once over the poor performance words and
  once over the random words: append every word whose id \<^verbatim>\<open>seenWords\<close> does not hold.
\<close>

fun addUnseen ::
  "Word list \<Rightarrow> Word list \<times> (string \<rightharpoonup> bool) \<Rightarrow> Word list \<times> (string \<rightharpoonup> bool)" where
  "addUnseen [] (allWords, seenWords) = (allWords, seenWords)"
| "addUnseen (word # rest) (allWords, seenWords) =
     (if seenWords (Word word) = None
      then addUnseen rest (allWords @ [word], seenWords(Word word \<mapsto> True))
      else addUnseen rest (allWords, seenWords))"

definition capWords :: "int \<Rightarrow> Word list \<Rightarrow> Word list" where
  "capWords limit allWords =
     (if int (length allWords) > limit then take (nat limit) allWords else allWords)"

text \<open>
  \<^verbatim>\<open>getWords\<close>. \<^verbatim>\<open>make([]Word, 0, limit)\<close> panics on a negative capacity; memory
  is taken to suffice for a capacity that is not negative.
\<close>

definition getWords ::
  "'f env \<Rightarrow> ('f::linorder) state \<Rightarrow> string \<Rightarrow> int \<Rightarrow> (error + Word list) \<times> 'f state" where
  "getWords env st userID limit =
     (case getPoorPerformanceWords env st userID limit of
        (Inl err, st1) \<Rightarrow> (Inl err, st1)
      | (Inr poorPerformanceWords, st1) \<Rightarrow>
          if limit < 0 then (Inl (Panic ''makeslice: cap out of range''), st1)
          else
            (case addUnseen poorPerformanceWords ([], Map.empty) of
               (allWords, seenWords) \<Rightarrow>
                 if int (length allWords) < limit then
                   (case getRandomWords env st1 (limit - int (length allWords)) of
                      (Inl err, st2) \<Rightarrow> (Inl err, st2)
                    | (Inr randomWords, st2) \<Rightarrow>
                        (Inr (capWords limit (fst (addUnseen randomWords (allWords, seenWords)))), st2))
                 else (Inr (capWords limit allWords), st1)))"

text \<open>
  What a Go map guarantees of the word cache: one entry for a key, and, as
  \<^verbatim>\<open>init\<close> stores every word under its own \<^verbatim>\<open>Word\<close> field
  (\<^verbatim>\<open>cachedWords[word.Word] = word\<close>), a value that carries its key.
\<close>

definition cache_ok :: "(string \<times> Word) list \<Rightarrow> bool" where
  "cache_ok cw = (distinct (map fst cw) \<and> list_all (\<lambda>(k, w). Word w = k) cw)"

text \<open>The loop of \<^verbatim>\<open>init\<close> that fills the cache from the scanned words.\<close>

fun fillCache :: "Word list \<Rightarrow> (string \<times> Word) list \<Rightarrow> (string \<times> Word) list" where
  "fillCache [] cw = cw"
| "fillCache (word # words) cw = fillCache words (AList.update (Word word) word cw)"

section \<open>Requests and responses\<close>

text \<open>
  The part of \<^verbatim>\<open>events.APIGatewayProxyRequest\<close> the handlers read. The authorizer is
  a map of dynamically typed values. \<open>Results\<close> is what \<^verbatim>\<open>json.Unmarshal\<close> makes of
  the body (\<open>None\<close> when it rejects it). A response body is a text, the output of
  \<^verbatim>\<open>fmt.Sprint("%v", err)\<close>, or the JSON of a list of words.
\<close>

datatype jvalue = JString string | JObject "(string \<times> jvalue) list" | JOther

record event =
  Authorizer :: "(string \<times> jvalue) list"
  QueryStringParameters :: "(string \<times> string) list"
  Results :: "WordResults list option"

datatype body = Text string | Sprint string error | JSON "Word list"

record response =
  StatusCode :: int
  Body :: body

definition extractEmail :: "event \<Rightarrow> error + string" where
  "extractEmail ev =
     (case map_of (Authorizer ev) ''email'' of
        Some (JString email) \<Rightarrow> Inr email
      | _ \<Rightarrow>
          (case map_of (Authorizer ev) ''claims'' of
             Some (JObject claims) \<Rightarrow>
               (case map_of claims ''email'' of
                  Some (JString emailClaim) \<Rightarrow> Inr emailClaim
                | _ \<Rightarrow> Inl (Unauthorized ''Unauthorized: Email not found''))
           | _ \<Rightarrow> Inl (Unauthorized ''Unauthorized'')))"

text \<open>
  \<^verbatim>\<open>getUserIdByEmail\<close>, run by one invocation at a time: the second look at the cache,
  under the mutex, then finds what the first one found.
\<close>

definition getUserIdByEmail :: "'f env \<Rightarrow> 'f state \<Rightarrow> string \<Rightarrow> (error + string) \<times> 'f state" where
  "getUserIdByEmail env st email =
     (case userCache st email of
        Some userId \<Rightarrow> (Inr userId, st)
      | None \<Rightarrow>
          (case Query_users env st email of
             (Inl err, st') \<Rightarrow> (Inl err, st')
           | (Inr [], st') \<Rightarrow> (Inl NoUserFound, st')
           | (Inr (userId # items), st') \<Rightarrow>
               (Inr userId, st'\<lparr>userCache := (userCache st')(email \<mapsto> userId)\<rparr>)))"

text \<open>
  \<^verbatim>\<open>strconv.Atoi\<close>, which the repository calls and does not define: an optional
  sign, then one decimal digit or more, and a value that fits 64 bits.
\<close>

definition digit :: "char \<Rightarrow> nat option" where
  "digit c = (let n = (of_char c :: nat) in if 48 \<le> n \<and> n \<le> 57 then Some (n - 48) else None)"

fun digits :: "string \<Rightarrow> nat \<Rightarrow> nat option" where
  "digits [] acc = Some acc"
| "digits (c # cs) acc = (case digit c of None \<Rightarrow> None | Some d \<Rightarrow> digits cs (10 * acc + d))"

definition Atoi :: "string \<Rightarrow> int option" where
  "Atoi s =
     (let (neg, ds) =
            (case s of
               [] \<Rightarrow> (False, s)
             | c # r \<Rightarrow> if c = CHR ''-'' then (True, r) else if c = CHR ''+'' then (False, r) else (False, s))
      in if ds = [] then None
         else (case digits ds 0 of
                 None \<Rightarrow> None
               | Some n \<Rightarrow>
                   (let v = (if neg then - int n else int n)
                    in if - (2 ^ 63) \<le> v \<and> v < 2 ^ 63 then Some v else None)))"

text \<open>\<^verbatim>\<open>event.QueryStringParameters["numWords"]\<close>: a missing key reads as the empty string.\<close>

definition numWordsStr :: "event \<Rightarrow> string" where
  "numWordsStr ev = (case map_of (QueryStringParameters ev) ''numWords'' of None \<Rightarrow> [] | Some s \<Rightarrow> s)"

definition handleGetWords ::
  "'f env \<Rightarrow> ('f::linorder) state \<Rightarrow> event \<Rightarrow> (error + response) \<times> 'f state" where
  "handleGetWords env st ev =
     (case extractEmail ev of
        Inl err \<Rightarrow> (Inr \<lparr>StatusCode = 401, Body = Sprint ''%v'' err\<rparr>, st)
      | Inr userEmail \<Rightarrow>
          (case Atoi (if numWordsStr ev = [] then ''10'' else numWordsStr ev) of
             None \<Rightarrow> (Inr \<lparr>StatusCode = 400, Body = Text ''Invalid numWords parameter''\<rparr>, st)
           | Some numWords \<Rightarrow>
               if numWords \<le> 0
               then (Inr \<lparr>StatusCode = 400, Body = Text ''Invalid numWords parameter''\<rparr>, st)
               else
                 (case getUserIdByEmail env st userEmail of
                    (Inl err, st1) \<Rightarrow> (Inr \<lparr>StatusCode = 400, Body = Text ''User not found''\<rparr>, st1)
                  | (Inr userId, st1) \<Rightarrow>
                      (case getWords env st1 userId numWords of
                         (Inl (Panic msg), st2) \<Rightarrow> (Inl (Panic msg), st2)
                       | (Inl err, st2) \<Rightarrow>
                           (Inr \<lparr>StatusCode = 500, Body = Text ''Internal server error''\<rparr>, st2)
                       | (Inr words, st2) \<Rightarrow>
                           (Inr \<lparr>StatusCode = 200, Body = JSON words\<rparr>, st2)))))"

section \<open>The statistics update\<close>

text \<open>
  \<^verbatim>\<open>updateWordStatistics\<close> issues two requests. Up to the first one and the
  arithmetic that follows it (\<^verbatim>\<open>GetItem\<close>, the unmarshalling or the fresh struct, the
  two increments and the quotient) it is \<open>updateWordStatistics_read\<close>; the
  \<^verbatim>\<open>UpdateItem\<close> that writes the three numbers back is
  \<open>updateWordStatistics_write\<close>.
\<close>

definition updateWordStatistics_read ::
  "('f::zero) env \<Rightarrow> 'f state \<Rightarrow> string \<Rightarrow> WordResults \<Rightarrow> (error + 'f WordStatistics) \<times> 'f state" where
  "updateWordStatistics_read env st userId result =
     (case GetItem env st (userId, Word_r result) of
        (Inl err, st') \<Rightarrow> (Inl err, st')
      | (Inr item, st') \<Rightarrow>
          (case (case item of
                   Some a \<Rightarrow> UnmarshalMap ((userId, Word_r result), a)
                 | None \<Rightarrow>
                     Inr \<lparr>UserId = userId, Word_s = Word_r result,
                          Attempts = 0, Success = 0, SuccessRatio = 0\<rparr>) of
             Inl err \<Rightarrow> (Inl err, st')
           | Inr wordStats \<Rightarrow>
               (let counted = wordStats\<lparr>Attempts := Attempts wordStats + 1\<rparr>;
                    scored = (if IsCorrect result
                              then counted\<lparr>Success := Success counted + 1\<rparr> else counted)
                in (Inr (scored\<lparr>SuccessRatio :=
                           ratio env (sint (Success scored)) (sint (Attempts scored))\<rparr>), st'))))"

definition updateWordStatistics_write ::
  "'f env \<Rightarrow> 'f state \<Rightarrow> string \<Rightarrow> WordResults \<Rightarrow> 'f WordStatistics \<Rightarrow> error option \<times> 'f state" where
  "updateWordStatistics_write env st userId result wordStats =
     UpdateItem env st (userId, Word_r result)
       (Attempts wordStats) (Success wordStats) (SuccessRatio wordStats)"

definition updateWordStatistics ::
  "('f::zero) env \<Rightarrow> 'f state \<Rightarrow> string \<Rightarrow> WordResults \<Rightarrow> error option \<times> 'f state" where
  "updateWordStatistics env st userId result =
     (case updateWordStatistics_read env st userId result of
        (Inl err, st') \<Rightarrow> (Some err, st')
      | (Inr wordStats, st') \<Rightarrow> updateWordStatistics_write env st' userId result wordStats)"

text \<open>The loop of \<^verbatim>\<open>handleResults\<close>: it returns at the first update that fails.\<close>

fun updateEach ::
  "('f::zero) env \<Rightarrow> 'f state \<Rightarrow> string \<Rightarrow> WordResults list \<Rightarrow> error option \<times> 'f state" where
  "updateEach env st userId [] = (None, st)"
| "updateEach env st userId (result # rest) =
     (case updateWordStatistics env st userId result of
        (Some err, st') \<Rightarrow> (Some err, st')
      | (None, st') \<Rightarrow> updateEach env st' userId rest)"

definition handleResults :: "('f::zero) env \<Rightarrow> 'f state \<Rightarrow> event \<Rightarrow> response \<times> 'f state" where
  "handleResults env st ev =
     (case extractEmail ev of
        Inl err \<Rightarrow> (\<lparr>StatusCode = 401, Body = Sprint ''%v'' err\<rparr>, st)
      | Inr userEmail \<Rightarrow>
          (case getUserIdByEmail env st userEmail of
             (Inl err, st1) \<Rightarrow> (\<lparr>StatusCode = 400, Body = Text ''User not found''\<rparr>, st1)
           | (Inr userId, st1) \<Rightarrow>
               (case Results ev of
                  None \<Rightarrow> (\<lparr>StatusCode = 400, Body = Text ''Invalid request body''\<rparr>, st1)
                | Some wordResults \<Rightarrow>
                    (case updateEach env st1 userId wordResults of
                       (Some err, st2) \<Rightarrow>
                         (\<lparr>StatusCode = 500, Body = Text ''Failed to update statistics''\<rparr>, st2)
                     | (None, st2) \<Rightarrow>
                         (\<lparr>StatusCode = 200, Body = Text ''Word resultss successfully uploaded''\<rparr>, st2)))))"

section \<open>Callers that run at the same time\<close>

text \<open>
  Invocations share the store. A request to the store is one step; what a caller
  computes between two requests touches its own variables only. A caller of
  \<^verbatim>\<open>updateWordStatistics\<close> is about to read, about to write the struct it has
  computed, or has returned. A schedule names the caller that takes the next step.
\<close>

datatype 'f pc = Reading | Writing "'f WordStatistics" | Returned "error option"

record 'f caller =
  userId_c :: string
  result_c :: WordResults
  stage :: "'f pc"

definition caller_step :: "('f::zero) env \<Rightarrow> 'f state \<Rightarrow> 'f caller \<Rightarrow> 'f caller \<times> 'f state" where
  "caller_step env st c =
     (case stage c of
        Reading \<Rightarrow>
          (case updateWordStatistics_read env st (userId_c c) (result_c c) of
             (Inl err, st') \<Rightarrow> (c\<lparr>stage := Returned (Some err)\<rparr>, st')
           | (Inr wordStats, st') \<Rightarrow> (c\<lparr>stage := Writing wordStats\<rparr>, st'))
      | Writing wordStats \<Rightarrow>
          (case updateWordStatistics_write env st (userId_c c) (result_c c) wordStats of
             (err, st') \<Rightarrow> (c\<lparr>stage := Returned err\<rparr>, st'))
      | Returned err \<Rightarrow> (c, st))"

fun run :: "('f::zero) env \<Rightarrow> nat list \<Rightarrow> 'f caller list \<times> 'f state \<Rightarrow> 'f caller list \<times> 'f state" where
  "run env [] (cs, st) = (cs, st)"
| "run env (t # schedule) (cs, st) =
     (if t < length cs
      then (case caller_step env st (cs ! t) of (c', st') \<Rightarrow> run env schedule (cs[t := c'], st'))
      else run env schedule (cs, st))"

section \<open>A catalog of five words\<close>

text \<open>
  The scenario of the specification: the catalog \<open>{A, B, C, D, E}\<close>, a user with the
  statistics \<open>C\<close> (ratio \<open>1/5\<close>) and \<open>D\<close> (ratio \<open>2/5\<close>), a store that answers every
  request, ratios as rational numbers, and a generator whose stream after any seed is
  a given list of raw outputs followed by zeros.
\<close>

definition entry :: "string \<Rightarrow> string \<times> Word" where
  "entry w = (w, \<lparr>Word = w, Correct = w, Incorrect = []\<rparr>)"

definition outputs :: "nat list \<Rightarrow> nat \<Rightarrow> nat" where
  "outputs xs k = (if k < length xs then xs ! k else 0)"

definition world :: "string list \<Rightarrow> nat list \<Rightarrow> rat env" where
  "world order raw =
     \<lparr>cachedWords = map entry order, failing = (\<lambda>n. False),
      source = (\<lambda>seed. outputs raw), now = 0,
      ratio = (\<lambda>s a. of_int s / of_int a)\<rparr>"

definition learner :: "rat state" where
  "learner =
     \<lparr>wordStatistics =
        [((''u1'', ''C''), Numbers 5 1 (1 / 5)), ((''u1'', ''D''), Numbers 5 2 (2 / 5))],
      usersIndex = [(''ann@example.org'', ''u1'')], requests = 0,
      userCache = Map.empty, rand = outputs []\<rparr>"

definition newcomer :: "rat state" where
  "newcomer = learner\<lparr>wordStatistics := []\<rparr>"

definition request_of :: "(string \<times> string) list \<Rightarrow> WordResults list option \<Rightarrow> event" where
  "request_of params results =
     \<lparr>Authorizer = [(''email'', JString ''ann@example.org'')],
      QueryStringParameters = params, Results = results\<rparr>"


definition outage :: "nat \<Rightarrow> rat env" where
  "outage k = (world [] [])\<lparr>failing := (\<lambda>n. n = k)\<rparr>"

definition outcome :: "string \<Rightarrow> bool \<Rightarrow> WordResults" where
  "outcome w c = \<lparr>Word_r = w, IsCorrect = c\<rparr>"

definition submitting :: "string \<Rightarrow> WordResults \<Rightarrow> rat caller" where
  "submitting u r = \<lparr>userId_c = u, result_c = r, stage = Reading\<rparr>"

section \<open>Invariants used in the proofs\<close>

text \<open>\<^verbatim>\<open>seenWords\<close> holds the ids of the words of \<^verbatim>\<open>allWords\<close>, and no other key.\<close>

definition tracks :: "(string \<rightharpoonup> bool) \<Rightarrow> Word list \<Rightarrow> bool" where
  "tracks seenWords allWords = (\<forall>k. (seenWords k \<noteq> None) = (k \<in> Word ` set allWords))"

section \<open>The sampler returns a sample\<close>

lemma reservoir_inv:
  assumes "length rw = min (nat limit) i"
    and "distinct (map Word (rw @ rest))"
  shows "\<exists>ws g'. reservoir limit rest i rw g = (Inr ws, g')
            \<and> length ws = min (nat limit) (i + length rest)
            \<and> distinct (map Word ws) \<and> set ws \<subseteq> set rw \<union> set rest"
  using assms
proof (induction rest arbitrary: i rw g)
  case Nil
  then show ?case by simp
next
  case (Cons word rest)
  show ?case
  proof (cases "int i < limit")
    case True
    have len: "length (rw @ [word]) = min (nat limit) (i + 1)"
      using Cons.prems(1) True by simp
    have dis: "distinct (map Word ((rw @ [word]) @ rest))"
      using Cons.prems(2) by simp
    from Cons.IH [OF len dis, of g] True show ?thesis
      by auto
  next
    case False
    obtain r g' where ig: "Intn (i + 1) g = (r, g')" by (cases "Intn (i + 1) g")
    show ?thesis
    proof (cases "int r < limit")
      case rlt: True
      then have rlen: "r < length rw" using Cons.prems(1) False by simp
      have len: "length (rw[r := word]) = min (nat limit) (i + 1)"
        using Cons.prems(1) False by simp
      have fresh: "Word word \<notin> set (map Word rw)" "Word word \<notin> set (map Word rest)"
        using Cons.prems(2) by auto
      have "distinct ((map Word rw)[r := Word word])"
        using Cons.prems(2) fresh by (intro distinct_list_update) auto
      moreover have "set ((map Word rw)[r := Word word]) \<subseteq> insert (Word word) (set (map Word rw))"
        by (rule set_update_subset_insert)
      moreover have "set (map Word rw) \<inter> set (map Word rest) = {}"
        using Cons.prems(2) by auto
      ultimately have "set ((map Word rw)[r := Word word]) \<inter> set (map Word rest) = {}"
        and "distinct ((map Word rw)[r := Word word])"
        using fresh by blast+
      then have dis: "distinct (map Word (rw[r := word] @ rest))"
        using Cons.prems(2) by (simp add: map_update)
      have sub: "set (rw[r := word]) \<subseteq> insert word (set rw)"
        by (rule set_update_subset_insert)
      from Cons.IH [OF len dis, of g'] False rlt rlen ig sub show ?thesis
        by auto
    next
      case rge: False
      have len: "length rw = min (nat limit) (i + 1)"
        using Cons.prems(1) False by simp
      have dis: "distinct (map Word (rw @ rest))"
        using Cons.prems(2) by simp
      from Cons.IH [OF len dis, of g'] False rge ig show ?thesis
        by auto
    qed
  qed
qed

lemma cache_ok_ids: "cache_ok cw \<Longrightarrow> map Word (map snd cw) = map fst cw"
  by (induction cw) (auto simp: cache_ok_def)

lemma cache_ok_entries: "distinct order \<Longrightarrow> cache_ok (map entry order)"
  unfolding cache_ok_def
  by (induction order) (auto simp: entry_def list_all_iff)

lemma set_update_sub: "set (AList.update k v al) \<subseteq> insert (k, v) (set al)"
  by (induction al) auto

text \<open>The cache that \<^verbatim>\<open>init\<close> builds from any scan is such a map.\<close>

lemma cache_ok_fillCache: "cache_ok cw \<Longrightarrow> cache_ok (fillCache words cw)"
proof (induction words arbitrary: cw)
  case Nil
  then show ?case by simp
next
  case (Cons word words)
  have "cache_ok (AList.update (Word word) word cw)"
    using Cons.prems set_update_sub [of "Word word" word cw]
    by (auto simp: cache_ok_def distinct_update list_all_iff)
  then show ?case by (simp add: Cons.IH)
qed



lemma getRandomWords_props:
  assumes "cache_ok (cachedWords env)" and "1 \<le> n"
  shows "\<exists>ws st'. getRandomWords env st n = (Inr ws, st')
           \<and> length ws = min (nat n) (length (cachedWords env))
           \<and> distinct (map Word ws)
           \<and> set ws \<subseteq> snd ` set (cachedWords env)"
proof -
  have "map Word (map snd (cachedWords env)) = map fst (cachedWords env)"
    using assms(1) by (rule cache_ok_ids)
  moreover have "distinct (map fst (cachedWords env))"
    using assms(1) by (simp add: cache_ok_def)
  ultimately have "distinct (map Word ([] @ map snd (cachedWords env)))"
    by (simp del: map_map)
  moreover have "length ([] :: Word list) = min (nat n) 0" by simp
  ultimately obtain ws g' where
    "reservoir n (map snd (cachedWords env)) 0 [] (source env (now env)) = (Inr ws, g')"
    "length ws = min (nat n) (0 + length (map snd (cachedWords env)))"
    "distinct (map Word ws)" "set ws \<subseteq> set [] \<union> set (map snd (cachedWords env))"
    using reservoir_inv [of "[]" n 0 "map snd (cachedWords env)" "source env (now env)"] by blast
  then show ?thesis
    by (simp add: getRandomWords_def)
qed

text \<open>
  Claim C4. For every \<open>n \<ge> 1\<close> and a word cache of \<open>N\<close> entries, for every state of
  the random source, every seed and every order in which the map is visited,
  \<^verbatim>\<open>getRandomWords(n)\<close> returns (it does not panic) exactly \<open>min n N\<close> words, no two
  with the same id, each of them a word of the cache.
\<close>

theorem getRandomWords_sample:
  assumes "cache_ok (cachedWords env)" and "1 \<le> n"
  shows "\<exists>ws st'. getRandomWords env st n = (Inr ws, st')
           \<and> length ws = min (nat n) (length (cachedWords env))
           \<and> distinct (map Word ws)
           \<and> set ws \<subseteq> snd ` set (cachedWords env)"
  using assms by (rule getRandomWords_props)

theorem getRandomWords_sample_witness:
  "cache_ok (cachedWords (world [''A'', ''B'', ''C'', ''D'', ''E''] [0, 3, 1]))
   \<and> (1::int) \<le> 2
   \<and> (\<exists>ws st'. getRandomWords (world [''A'', ''B'', ''C'', ''D'', ''E''] [0, 3, 1]) learner 2 = (Inr ws, st')
           \<and> length ws = min (nat 2) (length (cachedWords (world [''A'', ''B'', ''C'', ''D'', ''E''] [0, 3, 1])))
           \<and> distinct (map Word ws)
           \<and> set ws \<subseteq> snd ` set (cachedWords (world [''A'', ''B'', ''C'', ''D'', ''E''] [0, 3, 1])))
   \<and> fst (getRandomWords (world [''A'', ''B'', ''C'', ''D'', ''E''] [0, 3, 1]) learner 2)
       = Inr [snd (entry ''C''), snd (entry ''E'')]"
proof -
  have ok: "cache_ok (cachedWords (world [''A'', ''B'', ''C'', ''D'', ''E''] [0, 3, 1]))"
    using cache_ok_entries [of "[''A'', ''B'', ''C'', ''D'', ''E'']"] by (simp add: world_def)
  have sample: "fst (getRandomWords (world [''A'', ''B'', ''C'', ''D'', ''E''] [0, 3, 1]) learner 2)
       = Inr [snd (entry ''C''), snd (entry ''E'')]"
    by (simp add: getRandomWords_def world_def Intn_def outputs_def entry_def)
  show ?thesis
    using ok sample getRandomWords_sample [OF ok, of 2 learner] by simp
qed

section \<open>The selector\<close>


lemma tracks_add:
  "tracks seen all \<Longrightarrow> tracks (seen(Word w \<mapsto> True)) (all @ [w])"
  by (auto simp: tracks_def)

text \<open>
  One run of the loop of \<^verbatim>\<open>getWords\<close> appends words of the list it visits, never one
  whose id is already there, and keeps \<^verbatim>\<open>seenWords\<close> in step.
\<close>

lemma addUnseen_inv:
  assumes "tracks seen all" and "distinct (map Word all)"
  shows "\<exists>extra seen'. addUnseen ws (all, seen) = (all @ extra, seen')
           \<and> tracks seen' (all @ extra) \<and> distinct (map Word (all @ extra))
           \<and> set extra \<subseteq> set ws \<and> length extra \<le> length ws"
  using assms
proof (induction ws arbitrary: all seen)
  case Nil
  then show ?case by simp
next
  case (Cons w ws)
  show ?case
  proof (cases "seen (Word w) = None")
    case True
    then have fresh: "Word w \<notin> Word ` set all"
      using Cons.prems(1) unfolding tracks_def by metis
    have t: "tracks (seen(Word w \<mapsto> True)) (all @ [w])"
      using Cons.prems(1) by (rule tracks_add)
    have d: "distinct (map Word (all @ [w]))"
      using Cons.prems(2) fresh by simp
    from Cons.IH [OF t d] obtain extra seen' where
      "addUnseen ws (all @ [w], seen(Word w \<mapsto> True)) = ((all @ [w]) @ extra, seen')"
      "tracks seen' ((all @ [w]) @ extra)" "distinct (map Word ((all @ [w]) @ extra))"
      "set extra \<subseteq> set ws" "length extra \<le> length ws"
      by blast
    then show ?thesis using True
      by (intro exI [of _ "w # extra"] exI [of _ seen']) auto
  next
    case False
    from Cons.IH [OF Cons.prems] obtain extra seen' where
      "addUnseen ws (all, seen) = (all @ extra, seen')"
      "tracks seen' (all @ extra)" "distinct (map Word (all @ extra))"
      "set extra \<subseteq> set ws" "length extra \<le> length ws"
      by blast
    then show ?thesis using False
      by (intro exI [of _ extra] exI [of _ seen']) auto
  qed
qed


lemmas eval_defs = getWords_def getPoorPerformanceWords_def Query_statistics_def index_rows_def
  getRandomWords_def Intn_def outputs_def world_def learner_def entry_def
  issued_def capWords_def signed_divide_int_def



text \<open>
  Claim C2 asks for exactly \<open>min count N\<close> words, \<open>N\<close> the number of words of the
  catalog. The code does not deliver it. With the catalog \<open>{A, B, C, D, E}\<close> visited in
  the order \<open>C, A, B, D, E\<close>, the statistics \<open>C\<close> and \<open>D\<close> and the count \<open>3\<close>, the
  performance query gives \<open>C\<close>, the sampler is asked for the two missing words and
  draws \<open>C\<close> and \<open>A\<close>, \<open>C\<close> is skipped as seen, and two words are returned where
  five are at hand.
\<close>

theorem getWords_short_fill:
  "fst (getWords (world [''C'', ''A'', ''B'', ''D'', ''E''] [2, 2, 2]) learner ''u1'' 3)
     = Inr [snd (entry ''C''), snd (entry ''A'')]"
  by (simp add: eval_defs)

lemma map_of_entry: "w \<in> set order \<Longrightarrow> map_of (map entry order) w = Some (snd (entry w))"
  by (induction order) (auto simp: entry_def)

lemma learner_rows:
  "index_rows ''u1'' (wordStatistics learner)
     = [((''u1'', ''C''), Numbers 5 1 (1 / 5)), ((''u1'', ''D''), Numbers 5 2 (2 / 5))]"
  by (simp add: index_rows_def learner_def)

text \<open>
  Claim C3 as stated, \<open>[C, D, x]\<close> with \<open>x\<close> one of \<open>A, B, E\<close> for every state of the
  random source, fails: the query is capped at \<open>3 / 2 = 1\<close> item, so \<open>D\<close> is not taken
  as a weak word. With the catalog visited in the order \<open>A, B, C, D, E\<close> and draws
  that replace nothing, the answer is \<open>[C, A, B]\<close>.
\<close>

theorem getWords_scenario_counterexample:
  "fst (getWords (world [''A'', ''B'', ''C'', ''D'', ''E''] [2, 2, 2]) learner ''u1'' 3)
     = Inr [snd (entry ''C''), snd (entry ''A''), snd (entry ''B'')]
   \<and> snd (entry ''A'') \<noteq> snd (entry ''D'')"
  by (simp add: eval_defs)

text \<open>
  Claim C3, amended. For the catalog \<open>{A, B, C, D, E}\<close> in any order, a user whose only
  statistics are \<open>C\<close> (ratio \<open>1/5\<close>) and \<open>D\<close> (ratio \<open>2/5\<close>), a store that answers, and
  every seed and random stream, \<^verbatim>\<open>getWords(user, 3)\<close> returns \<open>C\<close> first (the
  performance query is capped at one item), followed by at most two words with different
  ids, each one of \<open>A, B, D, E\<close>.
\<close>

theorem getWords_scenario:
  fixes env :: "rat env" and st :: "rat state"
  assumes "distinct order" and "set order = {''A'', ''B'', ''C'', ''D'', ''E''}"
    and "cachedWords env = map entry order"
    and "\<not> failing env (requests st)"
    and "wordStatistics st = wordStatistics learner"
  shows "\<exists>rest st'. getWords env st ''u1'' 3 = (Inr (snd (entry ''C'') # rest), st')
           \<and> length rest \<le> 2 \<and> distinct (map Word rest)
           \<and> set rest \<subseteq> snd ` entry ` {''A'', ''B'', ''D'', ''E''}"
proof -
  let ?C = "snd (entry ''C'')"
  have "''C'' \<in> set order" using assms(2) by simp
  then have look: "map_of (map entry order) ''C'' = Some ?C" by (rule map_of_entry)
  have weak: "getPoorPerformanceWords env st ''u1'' 3 = (Inr [?C], issued st)"
    using assms(3-5) look
    by (simp add: getPoorPerformanceWords_def Query_statistics_def learner_rows signed_divide_int_def)
  have first: "addUnseen [?C] ([], Map.empty) = ([?C], [''C'' \<mapsto> True])"
    by (simp add: entry_def)
  have ok: "cache_ok (cachedWords env)"
    using assms(1,3) by (simp add: cache_ok_entries)
  obtain rws st2 where gr: "getRandomWords env (issued st) 2 = (Inr rws, st2)"
    and len: "length rws \<le> 2" and sub: "set rws \<subseteq> snd ` set (cachedWords env)"
    using getRandomWords_props [OF ok, of 2 "issued st"] by auto
  have tr: "tracks [''C'' \<mapsto> True] [?C]"
    by (auto simp: tracks_def entry_def)
  obtain extra seen' where au: "addUnseen rws ([?C], [''C'' \<mapsto> True]) = ([?C] @ extra, seen')"
    and di: "distinct (map Word ([?C] @ extra))" and ex: "set extra \<subseteq> set rws"
    and le: "length extra \<le> length rws"
    using addUnseen_inv [OF tr, of rws] by auto
  have notC: "Word w \<noteq> ''C''" if "w \<in> set extra" for w
    using di that by (force simp: entry_def)
  have "set extra \<subseteq> snd ` entry ` {''A'', ''B'', ''D'', ''E''}"
  proof
    fix w assume w: "w \<in> set extra"
    then have "w \<in> snd ` entry ` set order" using ex sub assms(3) by auto
    then obtain k where k: "k \<in> set order" "w = snd (entry k)" by auto
    then have "k \<noteq> ''C''" using notC [OF w] by (auto simp: entry_def)
    then show "w \<in> snd ` entry ` {''A'', ''B'', ''D'', ''E''}"
      using k assms(2) by auto
  qed
  moreover have "length extra \<le> 2" using le len by simp
  moreover have "distinct (map Word extra)" using di by simp
  moreover have "getWords env st ''u1'' 3 = (Inr (?C # extra), st2)"
    using weak first gr au \<open>length extra \<le> 2\<close>
    by (simp add: getWords_def capWords_def)
  ultimately show ?thesis by blast
qed

theorem getWords_scenario_witness:
  "distinct [''A'', ''B'', ''C'', ''D'', ''E'']
   \<and> set [''A'', ''B'', ''C'', ''D'', ''E''] = {''A'', ''B'', ''C'', ''D'', ''E''}
   \<and> cachedWords (world [''A'', ''B'', ''C'', ''D'', ''E''] [2, 2, 2]) = map entry [''A'', ''B'', ''C'', ''D'', ''E'']
   \<and> \<not> failing (world [''A'', ''B'', ''C'', ''D'', ''E''] [2, 2, 2]) (requests learner)
   \<and> wordStatistics learner = wordStatistics learner
   \<and> (\<exists>rest st'. getWords (world [''A'', ''B'', ''C'', ''D'', ''E''] [2, 2, 2]) learner ''u1'' 3
                     = (Inr (snd (entry ''C'') # rest), st')
           \<and> length rest \<le> 2 \<and> distinct (map Word rest)
           \<and> set rest \<subseteq> snd ` entry ` {''A'', ''B'', ''D'', ''E''})"
proof -
  have a: "distinct [''A'', ''B'', ''C'', ''D'', ''E'']" by simp
  have b: "set [''A'', ''B'', ''C'', ''D'', ''E''] = {''A'', ''B'', ''C'', ''D'', ''E''}" by simp
  have c: "cachedWords (world [''A'', ''B'', ''C'', ''D'', ''E''] [2, 2, 2])
             = map entry [''A'', ''B'', ''C'', ''D'', ''E'']"
    by (simp add: world_def)
  have d: "\<not> failing (world [''A'', ''B'', ''C'', ''D'', ''E''] [2, 2, 2]) (requests learner)"
    by (simp add: world_def)
  show ?thesis
    using getWords_scenario [OF a b c d refl] a b c d by blast
qed

section \<open>One update of the statistics\<close>


lemma read_absent:
  assumes "map_of (wordStatistics st) (userId, Word_r result) = None"
    and "\<not> failing env (requests st)"
  shows "updateWordStatistics_read env st userId result =
           (Inr \<lparr>UserId = userId, Word_s = Word_r result, Attempts = 1,
                 Success = (if IsCorrect result then 1 else 0),
                 SuccessRatio = ratio env (if IsCorrect result then 1 else 0) 1\<rparr>, issued st)"
  using assms by (simp add: updateWordStatistics_read_def GetItem_def)


lemma write_ok:
  assumes "\<not> failing env (requests st)"
  shows "updateWordStatistics_write env st userId result ws =
           (None, issued (st\<lparr>wordStatistics :=
              AList.update (userId, Word_r result)
                (Numbers (Attempts ws) (Success ws) (SuccessRatio ws)) (wordStatistics st)\<rparr>))"
  using assms by (simp add: updateWordStatistics_write_def UpdateItem_def)

lemmas update_defs = updateWordStatistics_def updateWordStatistics_read_def
  updateWordStatistics_write_def GetItem_def UpdateItem_def issued_def

text \<open>
  Claim C6. For every pair \<open>(userId, word)\<close> with no item in the table, and a store
  that answers the two requests, \<^verbatim>\<open>updateWordStatistics\<close> returns no error and leaves
  an item with \<open>attempts = 1\<close> and \<open>success = 1\<close> for a correct outcome, \<open>0\<close> for an
  incorrect one; its ratio is the quotient of these two numbers (\<open>1 / 1\<close> or \<open>0 / 1\<close>).
\<close>

theorem updateWordStatistics_creates:
  assumes "map_of (wordStatistics st) (userId, Word_r result) = None"
    and "\<not> failing env (requests st)" and "\<not> failing env (requests st + 1)"
  shows "\<exists>st'. updateWordStatistics env st userId result = (None, st')
           \<and> map_of (wordStatistics st') (userId, Word_r result)
               = Some (Numbers 1 (if IsCorrect result then 1 else 0)
                         (ratio env (if IsCorrect result then 1 else 0) 1))"
  using assms
  by (simp add: updateWordStatistics_def read_absent write_ok issued_def update_conv')

theorem updateWordStatistics_creates_witness:
  "map_of (wordStatistics newcomer) (''u1'', Word_r (outcome ''A'' True)) = None
   \<and> \<not> failing (world [] []) (requests newcomer)
   \<and> \<not> failing (world [] []) (requests newcomer + 1)
   \<and> (\<exists>st'. updateWordStatistics (world [] []) newcomer ''u1'' (outcome ''A'' True) = (None, st')
           \<and> map_of (wordStatistics st') (''u1'', Word_r (outcome ''A'' True))
               = Some (Numbers 1 (if IsCorrect (outcome ''A'' True) then 1 else 0)
                         (ratio (world [] []) (if IsCorrect (outcome ''A'' True) then 1 else 0) 1)))"
proof -
  have a: "map_of (wordStatistics newcomer) (''u1'', Word_r (outcome ''A'' True)) = None"
    by (simp add: newcomer_def learner_def)
  have b: "\<not> failing (world [] []) (requests newcomer)"
    and c: "\<not> failing (world [] []) (requests newcomer + 1)"
    by (simp_all add: world_def)
  show ?thesis
    using updateWordStatistics_creates [OF a b c] a b c by blast
qed




section \<open>A list of outcomes\<close>

text \<open>An update that fails leaves every item as it was and issues at most two requests.\<close>

lemma read_state: "snd (updateWordStatistics_read env st userId result) = issued st"
  by (simp add: updateWordStatistics_read_def GetItem_def Let_def split: option.splits sum.splits)

lemma write_failed:
  "updateWordStatistics_write env st userId result ws = (Some err, st') \<Longrightarrow> st' = issued st"
  by (auto simp: updateWordStatistics_write_def UpdateItem_def split: if_splits)

lemma updateWordStatistics_failed:
  assumes "updateWordStatistics env st userId result = (Some err, st')"
  shows "wordStatistics st' = wordStatistics st \<and> requests st' \<le> requests st + 2"
proof (cases "updateWordStatistics_read env st userId result")
  case (Pair res st1)
  then have st1: "st1 = issued st" using read_state [of env st userId result] by simp
  show ?thesis
  proof (cases res)
    case (Inl e)
    then have "st' = issued st" using assms Pair st1 by (simp add: updateWordStatistics_def)
    then show ?thesis by (simp add: issued_def)
  next
    case (Inr ws)
    then have "st' = issued st1"
      using assms Pair by (simp add: updateWordStatistics_def write_failed)
    then show ?thesis using st1 by (simp add: issued_def)
  qed
qed

lemma updateEach_append:
  "updateEach env st userId (xs @ ys) =
     (case updateEach env st userId xs of
        (Some err, st') \<Rightarrow> (Some err, st')
      | (None, st') \<Rightarrow> updateEach env st' userId ys)"
  by (induction xs arbitrary: st) (auto split: prod.splits option.splits)

lemmas handler_defs = extractEmail_def getUserIdByEmail_def Query_users_def request_of_def
  outage_def world_def newcomer_def learner_def outcome_def

text \<open>
  Claim C10. \<^verbatim>\<open>handleResults\<close> applies the outcomes one at a time in the order of
  the list. When the updates of the outcomes before the \<open>k\<close>-th have succeeded and the
  update of the \<open>k\<close>-th fails, the answer is status 500, the state is the one that the
  failed update leaves (no later outcome is touched, whatever the rest of the list is),
  and the table is as the earlier updates left it.
\<close>

theorem handleResults_stops_at_failure:
  assumes "extractEmail ev = Inr email"
    and "getUserIdByEmail env st email = (Inr userId, st1)"
    and "Results ev = Some (pre @ result # post)"
    and "updateEach env st1 userId pre = (None, st2)"
    and "updateWordStatistics env st2 userId result = (Some err, st3)"
  shows "handleResults env st ev
           = (\<lparr>StatusCode = 500, Body = Text ''Failed to update statistics''\<rparr>, st3)
         \<and> wordStatistics st3 = wordStatistics st2
         \<and> requests st3 \<le> requests st2 + 2"
proof -
  have "updateEach env st1 userId (pre @ result # post) = (Some err, st3)"
    using assms(4,5) by (simp add: updateEach_append)
  then have "handleResults env st ev
           = (\<lparr>StatusCode = 500, Body = Text ''Failed to update statistics''\<rparr>, st3)"
    using assms(1-3) by (simp add: handleResults_def)
  then show ?thesis
    using updateWordStatistics_failed [OF assms(5)] by simp
qed

theorem handleResults_stops_at_failure_witness:
  "\<exists>st1 st2 st3.
     extractEmail (request_of [] (Some ([outcome ''A'' True] @ outcome ''B'' True # [outcome ''E'' False])))
       = Inr ''ann@example.org''
   \<and> getUserIdByEmail (outage 4) newcomer ''ann@example.org'' = (Inr ''u1'', st1)
   \<and> Results (request_of [] (Some ([outcome ''A'' True] @ outcome ''B'' True # [outcome ''E'' False])))
       = Some ([outcome ''A'' True] @ outcome ''B'' True # [outcome ''E'' False])
   \<and> updateEach (outage 4) st1 ''u1'' [outcome ''A'' True] = (None, st2)
   \<and> updateWordStatistics (outage 4) st2 ''u1'' (outcome ''B'' True) = (Some StoreFailure, st3)
   \<and> handleResults (outage 4) newcomer
        (request_of [] (Some ([outcome ''A'' True] @ outcome ''B'' True # [outcome ''E'' False])))
        = (\<lparr>StatusCode = 500, Body = Text ''Failed to update statistics''\<rparr>, st3)
   \<and> wordStatistics st3 = wordStatistics st2
   \<and> requests st3 \<le> requests st2 + 2
   \<and> map_of (wordStatistics st3) (''u1'', ''A'') = Some (Numbers 1 1 1)
   \<and> map_of (wordStatistics st3) (''u1'', ''B'') = None
   \<and> map_of (wordStatistics st3) (''u1'', ''E'') = None"
proof -
  let ?ev = "request_of [] (Some ([outcome ''A'' True] @ outcome ''B'' True # [outcome ''E'' False]))"
  have a: "extractEmail ?ev = Inr ''ann@example.org''"
    by (simp add: handler_defs)
  obtain st1 where b: "getUserIdByEmail (outage 4) newcomer ''ann@example.org'' = (Inr ''u1'', st1)"
    and st1: "requests st1 = 1" "wordStatistics st1 = []"
    by (simp add: handler_defs issued_def)
  have c: "Results ?ev = Some ([outcome ''A'' True] @ outcome ''B'' True # [outcome ''E'' False])"
    by (simp add: request_of_def)
  obtain st2 where d: "updateEach (outage 4) st1 ''u1'' [outcome ''A'' True] = (None, st2)"
    and st2: "requests st2 = 3" "map_of (wordStatistics st2) (''u1'', ''A'') = Some (Numbers 1 1 1)"
      "map_of (wordStatistics st2) (''u1'', ''B'') = None" "map_of (wordStatistics st2) (''u1'', ''E'') = None"
    using st1 by (simp add: update_defs outage_def world_def outcome_def)
  obtain st3 where e: "updateWordStatistics (outage 4) st2 ''u1'' (outcome ''B'' True) = (Some StoreFailure, st3)"
    using st2 by (simp add: update_defs outage_def world_def outcome_def)
  show ?thesis
    using handleResults_stops_at_failure [OF a b c d e] a b c d e st2 by auto
qed

section \<open>Two callers and one record\<close>

text \<open>A caller that takes its two steps with no one in between runs \<^verbatim>\<open>updateWordStatistics\<close>.\<close>

lemma run_alone:
  "run env [0, 0] ([\<lparr>userId_c = u, result_c = r, stage = Reading\<rparr>], st)
     = ([\<lparr>userId_c = u, result_c = r, stage = Returned (fst (updateWordStatistics env st u r))\<rparr>],
        snd (updateWordStatistics env st u r))"
  by (auto simp: caller_step_def updateWordStatistics_def split: prod.splits sum.splits)

lemmas run_defs = caller_step_def submitting_def update_defs world_def newcomer_def learner_def outcome_def

text \<open>Two correct outcomes for the absent record \<open>(u1, A)\<close>, one caller after the other: two attempts.\<close>

lemma one_after_the_other:
  "map_of (wordStatistics (snd (run (world [] []) [0, 0, 1, 1]
       ([submitting ''u1'' (outcome ''A'' True), submitting ''u1'' (outcome ''A'' True)], newcomer))))
     (''u1'', ''A'') = Some (Numbers 2 2 1)"
  by (simp add: run_defs)

text \<open>
  Claim C1 asks that \<open>N\<close> outcomes for one pair \<open>(userId, word)\<close> leave \<open>attempts = N\<close>
  under every interleaving of the callers. The code reads the record, counts in its own
  memory and writes the numbers back, and an update is lost: when both callers read
  before either writes, both return without an error and the record holds one attempt.
\<close>

theorem lost_update:
  "map stage (fst (run (world [] []) [0, 1, 0, 1]
       ([submitting ''u1'' (outcome ''A'' True), submitting ''u1'' (outcome ''A'' True)], newcomer)))
     = [Returned None, Returned None]
   \<and> map_of (wordStatistics (snd (run (world [] []) [0, 1, 0, 1]
       ([submitting ''u1'' (outcome ''A'' True), submitting ''u1'' (outcome ''A'' True)], newcomer))))
     (''u1'', ''A'') = Some (Numbers 1 1 1)"
  by (simp add: run_defs)

section \<open>The seed of the random source\<close>



section \<open>The count of a request\<close>

lemma Atoi_10: "Atoi ''10'' = Some 10"
  by (simp add: Atoi_def digit_def)

lemma Atoi_examples:
  "Atoi ''-3'' = Some (-3)" "Atoi ''abc'' = None" "Atoi ''+7'' = Some 7" "Atoi ''-'' = None"
  "Atoi [] = None" "Atoi ''1 '' = None"
  "Atoi ''9223372036854775808'' = None" "Atoi ''-9223372036854775808'' = Some (-9223372036854775808)"
  by (simp_all add: Atoi_def digit_def)

lemma handleGetWords_default:
  assumes "numWordsStr ev = []"
  shows "handleGetWords env st ev
           = handleGetWords env st (ev\<lparr>QueryStringParameters := [(''numWords'', ''10'')]\<rparr>)"
proof -
  have e: "extractEmail (ev\<lparr>QueryStringParameters := [(''numWords'', ''10'')]\<rparr>) = extractEmail ev"
    by (simp add: extractEmail_def cong: option.case_cong jvalue.case_cong)
  have n: "numWordsStr (ev\<lparr>QueryStringParameters := [(''numWords'', ''10'')]\<rparr>) = ''10''"
    by (simp add: numWordsStr_def)
  show ?thesis
    unfolding handleGetWords_def e n using assms by simp
qed

text \<open>
  Claim C8 as stated fails for a missing count: \<^verbatim>\<open>handleGetWords\<close> replaces an empty
  \<^verbatim>\<open>numWords\<close> by \<^verbatim>\<open>"10"\<close>. The request of a known user without the parameter is
  answered with status 200 and (the catalog has five words) five words, after two
  requests to the store.
\<close>

theorem handleGetWords_default_counterexample:
  "numWordsStr (request_of [] None) = []
   \<and> fst (handleGetWords (world [''A'', ''B'', ''C'', ''D'', ''E''] [2, 2, 2]) learner (request_of [] None))
       = Inr \<lparr>StatusCode = 200,
              Body = JSON [snd (entry ''C''), snd (entry ''D''), snd (entry ''A''),
                           snd (entry ''B''), snd (entry ''E'')]\<rparr>
   \<and> requests (snd (handleGetWords (world [''A'', ''B'', ''C'', ''D'', ''E''] [2, 2, 2]) learner
                      (request_of [] None))) = 2"
  by (simp add: handleGetWords_def numWordsStr_def Atoi_10 extractEmail_def getUserIdByEmail_def
        Query_users_def request_of_def eval_defs)

text \<open>
  Claim C8, amended. A request whose \<^verbatim>\<open>numWords\<close> is present and is not a number, or
  is a number that is not positive, is answered without any access to the store (the
  state, with its count of requests, is the one before the call): with status 401 when
  it carries no email, which is looked at first, and with status 400 otherwise. The
  count is not clamped. A request without the parameter is not rejected: it is handled
  as the request with \<^verbatim>\<open>numWords=10\<close>.
\<close>

theorem handleGetWords_rejects:
  assumes "numWordsStr ev \<noteq> []"
    and "Atoi (numWordsStr ev) = None \<or> (\<exists>n. Atoi (numWordsStr ev) = Some n \<and> n \<le> 0)"
  shows "(\<exists>b. handleGetWords env st ev
           = (Inr \<lparr>StatusCode = (case extractEmail ev of Inl err \<Rightarrow> 401 | Inr email \<Rightarrow> 400),
                   Body = b\<rparr>, st))
         \<and> handleGetWords env st (ev\<lparr>QueryStringParameters := []\<rparr>)
             = handleGetWords env st (ev\<lparr>QueryStringParameters := [(''numWords'', ''10'')]\<rparr>)"
proof -
  have "\<exists>b. handleGetWords env st ev
           = (Inr \<lparr>StatusCode = (case extractEmail ev of Inl err \<Rightarrow> 401 | Inr email \<Rightarrow> 400),
                   Body = b\<rparr>, st)"
    using assms by (auto simp: handleGetWords_def split: sum.splits)
  moreover have "handleGetWords env st (ev\<lparr>QueryStringParameters := []\<rparr>)
      = handleGetWords env st
          (ev\<lparr>QueryStringParameters := []\<rparr>\<lparr>QueryStringParameters := [(''numWords'', ''10'')]\<rparr>)"
    by (rule handleGetWords_default) (simp add: numWordsStr_def)
  ultimately show ?thesis by simp
qed

theorem handleGetWords_rejects_witness:
  "numWordsStr (request_of [(''numWords'', ''-3'')] None) \<noteq> []
   \<and> (Atoi (numWordsStr (request_of [(''numWords'', ''-3'')] None)) = None
      \<or> (\<exists>n. Atoi (numWordsStr (request_of [(''numWords'', ''-3'')] None)) = Some n \<and> n \<le> 0))
   \<and> (\<exists>b. handleGetWords (world [''A'', ''B'', ''C'', ''D'', ''E''] [2, 2, 2]) learner
              (request_of [(''numWords'', ''-3'')] None)
           = (Inr \<lparr>StatusCode = (case extractEmail (request_of [(''numWords'', ''-3'')] None) of
                                    Inl err \<Rightarrow> 401 | Inr email \<Rightarrow> 400), Body = b\<rparr>, learner))
   \<and> extractEmail (request_of [(''numWords'', ''-3'')] None) = Inr ''ann@example.org''"
proof -
  have a: "numWordsStr (request_of [(''numWords'', ''-3'')] None) \<noteq> []"
    by (simp add: numWordsStr_def request_of_def)
  have b: "Atoi (numWordsStr (request_of [(''numWords'', ''-3'')] None)) = None
      \<or> (\<exists>n. Atoi (numWordsStr (request_of [(''numWords'', ''-3'')] None)) = Some n \<and> n \<le> 0)"
    by (simp add: numWordsStr_def request_of_def Atoi_def digit_def)
  have c: "extractEmail (request_of [(''numWords'', ''-3'')] None) = Inr ''ann@example.org''"
    by (simp add: extractEmail_def request_of_def)
  show ?thesis
    using handleGetWords_rejects [OF a b, of "world [''A'', ''B'', ''C'', ''D'', ''E''] [2, 2, 2]" learner]
      a b c by blast
qed

end
